theory Spec2Isabelle
  imports Complex_Main
begin

section \<open>Go strings, runes and the library functions the reader uses\<close>

text \<open>
  A Go \<open>string\<close> is a sequence of bytes; it is modelled as \<^typ>\<open>string\<close>, a list of
  8-bit \<^typ>\<open>char\<close>s. A \<open>rune\<close> is a code point; the runes met here are never negative and
  are modelled as \<^typ>\<open>nat\<close>.
\<close>

definition byte :: "char \<Rightarrow> nat" where
  "byte b = of_char b"

text \<open>\<open>strings.HasPrefix\<close> and \<open>strings.Contains\<close>: a byte-wise substring search.\<close>

fun strings_HasPrefix :: "string \<Rightarrow> string \<Rightarrow> bool" where
  "strings_HasPrefix s [] = True"
| "strings_HasPrefix [] (p # ps) = False"
| "strings_HasPrefix (b # bs) (p # ps) = (b = p \<and> strings_HasPrefix bs ps)"

fun strings_Contains :: "string \<Rightarrow> string \<Rightarrow> bool" where
  "strings_Contains [] substr = (substr = [])"
| "strings_Contains (b # bs) substr =
     (strings_HasPrefix (b # bs) substr \<or> strings_Contains bs substr)"

text \<open>
  The constants of the Go runtime's UTF-8 code (\<open>runtime/utf8.go\<close>).
\<close>

definition runeError :: nat where "runeError = 0xFFFD"
definition maxRune :: nat where "maxRune = 0x10FFFF"
definition surrogateMin :: nat where "surrogateMin = 0xD800"
definition surrogateMax :: nat where "surrogateMax = 0xDFFF"
definition rune1Max :: nat where "rune1Max = 0x7F"
definition rune2Max :: nat where "rune2Max = 0x7FF"
definition rune3Max :: nat where "rune3Max = 0xFFFF"

definition locb :: nat where "locb = 0x80"
definition hicb :: nat where "hicb = 0xBF"

definition contb :: "char \<Rightarrow> bool" where
  "contb b = (locb \<le> byte b \<and> byte b \<le> hicb)"

text \<open>
  One step of \<open>for _, c := range s\<close> on a non-empty string: the rune at the front of the
  string and the number of bytes it takes. A byte below \<open>0x80\<close> is its own rune; otherwise the
  runtime's \<open>decoderune\<close> runs, which gives \<open>runeError\<close> and width 1 on every ill-formed
  sequence. The masks and shifts of the source are written with \<open>mod\<close>, \<open>*\<close> and \<open>+\<close>:
  \<open>s0 & mask2 = s0 mod 32\<close>, \<open>s0 & mask3 = s0 mod 16\<close>, \<open>s0 & mask4 = s0 mod 8\<close>,
  \<open>s1 & maskx = s1 mod 64\<close>, and \<open>a << 6 | b = a * 64 + b\<close> for \<open>b < 64\<close>.
\<close>

fun decoderune :: "string \<Rightarrow> nat \<times> nat" where
  "decoderune [] = (runeError, 1)"
| "decoderune (s0 # rest) =
     (if byte s0 < 0x80 then (byte s0, 1)
      else if 0xC0 \<le> byte s0 \<and> byte s0 < 0xE0 then
        (case rest of
           s1 # _ \<Rightarrow>
             (let r = (byte s0 mod 32) * 64 + byte s1 mod 64
              in if contb s1 \<and> rune1Max < r then (r, 2) else (runeError, 1))
         | _ \<Rightarrow> (runeError, 1))
      else if 0xE0 \<le> byte s0 \<and> byte s0 < 0xF0 then
        (case rest of
           s1 # s2 # _ \<Rightarrow>
             (let r = (byte s0 mod 16) * 4096 + (byte s1 mod 64) * 64 + byte s2 mod 64
              in if contb s1 \<and> contb s2 \<and> rune2Max < r
                    \<and> \<not> (surrogateMin \<le> r \<and> r \<le> surrogateMax)
                 then (r, 3) else (runeError, 1))
         | _ \<Rightarrow> (runeError, 1))
      else if 0xF0 \<le> byte s0 \<and> byte s0 < 0xF8 then
        (case rest of
           s1 # s2 # s3 # _ \<Rightarrow>
             (let r = (byte s0 mod 8) * 262144 + (byte s1 mod 64) * 4096
                      + (byte s2 mod 64) * 64 + byte s3 mod 64
              in if contb s1 \<and> contb s2 \<and> contb s3 \<and> rune3Max < r \<and> r \<le> maxRune
                 then (r, 4) else (runeError, 1))
         | _ \<Rightarrow> (runeError, 1))
      else (runeError, 1))"

text \<open>
  The conversion \<open>string(c)\<close> of a rune: its UTF-8 encoding (the runtime's \<open>encoderune\<close>),
  where a surrogate or a value above \<open>maxRune\<close> is encoded as \<open>runeError\<close>.
\<close>

definition encode3 :: "nat \<Rightarrow> string" where
  "encode3 r = [char_of (0xE0 + r div 4096), char_of (0x80 + (r div 64) mod 64),
                char_of (0x80 + r mod 64)]"

definition intstring :: "nat \<Rightarrow> string" where
  "intstring r =
     (if r \<le> rune1Max then [char_of r]
      else if r \<le> rune2Max then [char_of (0xC0 + r div 64), char_of (0x80 + r mod 64)]
      else if maxRune < r \<or> (surrogateMin \<le> r \<and> r \<le> surrogateMax) then encode3 runeError
      else if r \<le> rune3Max then encode3 r
      else [char_of (0xF0 + r div 262144), char_of (0x80 + (r div 4096) mod 64),
            char_of (0x80 + (r div 64) mod 64), char_of (0x80 + r mod 64)])"

section \<open>containsOnly\<close>

text \<open>
  \<open>containsOnly\<close> ranges over the runes of \<open>s\<close> and returns false at the first one whose
  encoding is not a substring of \<open>chars\<close>.
\<close>

function containsOnly :: "string \<Rightarrow> string \<Rightarrow> bool" where
  "containsOnly [] chars = True"
| "containsOnly (b # bs) chars =
     (case decoderune (b # bs) of
        (c, w) \<Rightarrow>
          if \<not> strings_Contains chars (intstring c) then False
          else containsOnly (drop w (b # bs)) chars)"
  by pat_completeness auto
termination
  by (relation "measure (\<lambda>(s, chars). length s)")
     (auto simp: Let_def split: if_splits list.splits)

text \<open>
  The runes that \<open>for _, c := range s\<close> gives, in order: the characters of \<open>s\<close> as the loop
  sees them.
\<close>

function runes :: "string \<Rightarrow> nat list" where
  "runes [] = []"
| "runes (b # bs) = (case decoderune (b # bs) of (c, w) \<Rightarrow> c # runes (drop w (b # bs)))"
  by pat_completeness auto
termination
  by (relation "measure length")
     (auto simp: Let_def split: if_splits list.splits)

text \<open>
  A string is well-formed UTF-8 when it is the encoding of its own runes: no byte of it was
  read as \<open>runeError\<close> for being ill-formed.
\<close>

definition wellFormed :: "string \<Rightarrow> bool" where
  "wellFormed s = (concat (map intstring (runes s)) = s)"

text \<open>
  The code points that have an encoding of their own, and the number of continuation bytes
  that a leading byte announces.
\<close>

definition validRune :: "nat \<Rightarrow> bool" where
  "validRune r = (r \<le> maxRune \<and> \<not> (surrogateMin \<le> r \<and> r \<le> surrogateMax))"

definition tailLen :: "char \<Rightarrow> nat" where
  "tailLen h = (if byte h < 0x80 then 0 else if byte h < 0xE0 then 1
                else if byte h < 0xF0 then 2 else 3)"

section \<open>The data of the reader\<close>

text \<open>
  \<open>GasMeterReadResult\<close>, and the fields of \<open>Client\<close> that hold data. The two handles \<open>g\<close>
  and \<open>c\<close> of the client stand for the remote services; what those services answer is the
  \<open>World\<close> below. \<open>ReadAt\<close> is a \<open>time.Time\<close>, modelled as nanoseconds.
\<close>

record GasMeterReadResult =
  Read :: string
  Date :: string
  ReadAt :: int
  ItTakes :: string

record Client =
  model :: string
  systemPrompt :: string
  promptForImg :: string
  lastRead :: string

text \<open>An \<open>error\<close> made by \<open>fmt.Errorf\<close> is its message.\<close>

datatype error = Errorf string

fun Error :: "error \<Rightarrow> string" where
  "Error (Errorf msg) = msg"

record File =
  Name :: string
  URI :: string

record UploadFileConfig =
  MIMEType :: string
  DisplayName :: string

datatype Part = NewTextPart string | NewMediaPart string string

datatype Message = NewSystemMessage "Part list" | NewUserMessage "Part list"

text \<open>
  The sampling configuration. Its two numbers are \<open>float32\<close> values, held as the rationals
  they are.
\<close>

record GenerateContentConfig =
  TopK :: rat
  Temperature :: rat

record GenerateRequest =
  WithModelName :: string
  WithMessages :: "Message list"
  WithConfig :: GenerateContentConfig

text \<open>
  What the world outside answers during one run: the Files API (\<open>Upload\<close>, \<open>Delete\<close>), the
  two inference calls (\<open>genkit.GenerateData\<close> with the result it decodes, \<open>genkit.Generate\<close>
  with the \<open>Text()\<close> of its response), the clock (\<open>Now k\<close> is what the \<open>k\<close>-th reading of the
  clock in the run gives) and the library's \<open>Duration.String\<close>.
\<close>

record World =
  Files_Upload :: "string \<Rightarrow> UploadFileConfig \<Rightarrow> error + File"
  Files_Delete :: "string \<Rightarrow> error option"
  GenerateData :: "GenerateRequest \<Rightarrow> error + GasMeterReadResult"
  Generate :: "GenerateRequest \<Rightarrow> error + string"
  Now :: "nat \<Rightarrow> int"
  Duration_String :: "int \<Rightarrow> string"

text \<open>
  What a run does to the world and to the client, in the order it does it: the remote calls
  with their arguments, the log line, and the store into \<open>c.lastRead\<close>.
\<close>

datatype Event =
    Upload string UploadFileConfig
  | Delete string
  | GenerateDataCall GenerateRequest
  | GenerateCall GenerateRequest
  | LogPrintf string
  | StoreLastRead string

section \<open>guessAmbiouousDigits\<close>

text \<open>
  \<open>fmt.Sprintf(fixAmbiguousPromptFmt, a, b)\<close>: the format has two \<open>%s\<close> verbs and no other
  verb, so the result is the text before the first verb, \<open>a\<close>, the text between the verbs,
  \<open>b\<close>, and the text after the second verb. The curly quotes of the format are three bytes
  each.
\<close>

definition lquote :: string where
  "lquote = [CHR 0xE2, CHR 0x80, CHR 0x9C]"

definition rquote :: string where
  "rquote = [CHR 0xE2, CHR 0x80, CHR 0x9D]"

definition dquote :: string where
  "dquote = [CHR 0x22]"

definition promptHead :: string where
  "promptHead = ''The value '' @ lquote"

definition promptMiddle :: string where
  "promptMiddle =
     rquote
     @ '' represents the output of a analog-meter-reading analysis performed on an image.\<newline>''
     @ ''Uncertain digits within the reading are denoted by the '' @ lquote @ ''?'' @ rquote
     @ '' character.\<newline>\<newline>''
     @ ''Using the previously recorded meter value '' @ dquote"

definition promptTail :: string where
  "promptTail =
     dquote
     @ '' as a reference (only if it is not empty),\<newline>''
     @ ''infer and replace the '' @ lquote @ ''?'' @ rquote
     @ '' characters to estimate the most probable complete reading.\<newline>\<newline>''
     @ ''Instructions:\<newline>''
     @ ''- Return a string with the exact same length as the input value.\<newline>''
     @ ''- Output only the predicted value, without any explanations or additional text.\<newline>''"

definition fixAmbiguousPrompt :: "string \<Rightarrow> string \<Rightarrow> string" where
  "fixAmbiguousPrompt a b = promptHead @ a @ promptMiddle @ b @ promptTail"

text \<open>
  \<open>float32Ptr(10)\<close> is 10; \<open>float32Ptr(0.1)\<close> is the \<open>float32\<close> nearest to one tenth, which is
  \<open>13421773 / 2^27\<close>.
\<close>

definition samplingConfig :: GenerateContentConfig where
  "samplingConfig = \<lparr>TopK = 10, Temperature = 13421773 / 134217728\<rparr>"

definition guessRequest :: "Client \<Rightarrow> string \<Rightarrow> GenerateRequest" where
  "guessRequest c ambiguousValueString =
     \<lparr>WithModelName = model c,
      WithMessages =
        [NewUserMessage [NewTextPart (fixAmbiguousPrompt ambiguousValueString (lastRead c))]],
      WithConfig = samplingConfig\<rparr>"

text \<open>
  The result is the returned pair without its string on an error (the caller drops it),
  together with the events of the call.
\<close>

definition guessAmbiouousDigits ::
  "World \<Rightarrow> Client \<Rightarrow> string \<Rightarrow> (error + string) \<times> Event list" where
  "guessAmbiouousDigits w c ambiguousValueString =
     (if \<not> containsOnly ambiguousValueString ''.?0123456789''
      then (Inl (Errorf (''ambious value string, '' @ ambiguousValueString
                         @ '' is not valid'')), [])
      else
        (case Generate w (guessRequest c ambiguousValueString) of
           Inl err \<Rightarrow>
             (Inl (Errorf (''failed to generate: '' @ Error err)),
              [GenerateCall (guessRequest c ambiguousValueString)])
         | Inr resp \<Rightarrow>
             (Inr resp, [GenerateCall (guessRequest c ambiguousValueString)])))"

section \<open>ReadGasGuagePic\<close>

definition uploadConfig :: UploadFileConfig where
  "uploadConfig = \<lparr>MIMEType = ''image/jpeg'', DisplayName = ''Gas Meter Image''\<rparr>"

definition readRequest :: "Client \<Rightarrow> File \<Rightarrow> GenerateRequest" where
  "readRequest c file =
     \<lparr>WithModelName = model c,
      WithMessages =
        [NewSystemMessage [NewTextPart (systemPrompt c)],
         NewUserMessage [NewMediaPart ''image/jpeg'' (URI file), NewTextPart (promptForImg c)]],
      WithConfig = samplingConfig\<rparr>"

text \<open>
  The last four statements of the function (lines 121 to 126), reached with the result \<open>out\<close>
  and the events \<open>tr\<close> so far: the two time stamps, the store into \<open>c.lastRead\<close>, the return.
  The clock was read once at the start; \<open>time.Since\<close> reads it a second time and the
  \<open>time.Now\<close> of line 122 a third time.
\<close>

definition finish ::
  "World \<Rightarrow> Client \<Rightarrow> int \<Rightarrow> GasMeterReadResult \<Rightarrow> Event list
     \<Rightarrow> ((error + GasMeterReadResult) \<times> Client) \<times> Event list" where
  "finish w c start out tr =
     (let out1 = out\<lparr>ItTakes := Duration_String w (Now w 1 - start)\<rparr>;
          out2 = out1\<lparr>ReadAt := Now w 2\<rparr>
      in ((Inr out2, c\<lparr>lastRead := Read out2\<rparr>), tr @ [StoreLastRead (Read out2)]))"

text \<open>
  The function after the upload has succeeded (lines 90 to 126), without the deferred call.
\<close>

definition analyze ::
  "World \<Rightarrow> Client \<Rightarrow> int \<Rightarrow> File
     \<Rightarrow> ((error + GasMeterReadResult) \<times> Client) \<times> Event list" where
  "analyze w c start file =
     (case GenerateData w (readRequest c file) of
        Inl err \<Rightarrow>
          ((Inl (Errorf (''failed to analyze: '' @ Error err)), c),
           [GenerateDataCall (readRequest c file)])
      | Inr out \<Rightarrow>
          if strings_Contains (Read out) ''?'' then
            (case guessAmbiouousDigits w c (Read out) of
               (Inl err, tr) \<Rightarrow>
                 ((Inl (Errorf (''failed to guess ambiguous digits: '' @ Error err)), c),
                  [GenerateDataCall (readRequest c file),
                   LogPrintf (''Ambiguous digits found in the reading: '' @ Read out)] @ tr)
             | (Inr guessed, tr) \<Rightarrow>
                 finish w c start (out\<lparr>Read := guessed\<rparr>)
                   ([GenerateDataCall (readRequest c file),
                     LogPrintf (''Ambiguous digits found in the reading: '' @ Read out)] @ tr))
          else finish w c start out [GenerateDataCall (readRequest c file)])"

text \<open>
  The whole function: the result (an error or the reading), the client after the run, and
  the events of the run. The deferred \<open>Files.Delete\<close> runs when the function returns after a
  successful upload, whatever it returns, and what \<open>Delete\<close> answers is dropped.
\<close>

definition ReadGasGuagePic ::
  "World \<Rightarrow> Client \<Rightarrow> string
     \<Rightarrow> ((error + GasMeterReadResult) \<times> Client) \<times> Event list" where
  "ReadGasGuagePic w c jpgReader =
     (let start = Now w 0 in
      case Files_Upload w jpgReader uploadConfig of
        Inl err \<Rightarrow>
          ((Inl (Errorf (''failed to upload: '' @ Error err)), c),
           [Upload jpgReader uploadConfig])
      | Inr file \<Rightarrow>
          (case analyze w c start file of
             (res, tr) \<Rightarrow>
               (case Files_Delete w (Name file) of
                  _ \<Rightarrow> (res, [Upload jpgReader uploadConfig] @ tr @ [Delete (Name file)]))))"

section \<open>Reading a trace\<close>

text \<open>The requests of the \<open>genkit.Generate\<close> calls of a trace, in order.\<close>

fun resolutionCalls :: "Event list \<Rightarrow> GenerateRequest list" where
  "resolutionCalls [] = []"
| "resolutionCalls (GenerateCall req # tr) = req # resolutionCalls tr"
| "resolutionCalls (_ # tr) = resolutionCalls tr"

text \<open>The file names of the \<open>Files.Delete\<close> calls of a trace, in order.\<close>

fun deletes :: "Event list \<Rightarrow> string list" where
  "deletes [] = []"
| "deletes (Delete name # tr) = name # deletes tr"
| "deletes (_ # tr) = deletes tr"

text \<open>The values stored into \<open>c.lastRead\<close> in a trace, in order.\<close>

fun stores :: "Event list \<Rightarrow> string list" where
  "stores [] = []"
| "stores (StoreLastRead v # tr) = v # stores tr"
| "stores (_ # tr) = stores tr"

section \<open>A client and worlds to run the reader in\<close>

definition exampleClient :: Client where
  "exampleClient =
     \<lparr>model = ''googleai/gemini-2.5-flash-lite'',
      systemPrompt = ''You read an analog gas meter.'',
      promptForImg = ''Extract the reading and the date.'',
      lastRead = ''123.4''\<rparr>"

definition exampleFile :: File where
  "exampleFile = \<lparr>Name = ''files/gauge'', URI = ''https://files.example/gauge''\<rparr>"

text \<open>
  A world in which the upload succeeds, the structured call reads \<open>rd\<close> and the text call
  answers \<open>ans\<close>.
\<close>

definition exampleWorld :: "string \<Rightarrow> error + string \<Rightarrow> World" where
  "exampleWorld rd ans =
     \<lparr>Files_Upload = (\<lambda>jpg cfg. Inr exampleFile),
      Files_Delete = (\<lambda>name. None),
      GenerateData =
        (\<lambda>req. Inr \<lparr>Read = rd, Date = ''2024-01-01'', ReadAt = 0, ItTakes = []\<rparr>),
      Generate = (\<lambda>req. ans),
      Now = (\<lambda>k. 1000 * int k),
      Duration_String = (\<lambda>d. ''1.5s'')\<rparr>"

text \<open>A world in which the upload fails, and one in which the structured call fails.\<close>

definition uploadFailsWorld :: World where
  "uploadFailsWorld =
     (exampleWorld ''100.2'' (Inr ''100.2''))
       \<lparr>Files_Upload := (\<lambda>jpg cfg. Inl (Errorf ''connection refused''))\<rparr>"

definition analyzeFailsWorld :: World where
  "analyzeFailsWorld =
     (exampleWorld ''100.2'' (Inr ''100.2''))
       \<lparr>GenerateData := (\<lambda>req. Inl (Errorf ''quota exceeded''))\<rparr>"

section \<open>Facts about strings and runes\<close>

lemmas rune_defs = runeError_def rune1Max_def rune2Max_def rune3Max_def maxRune_def
  surrogateMin_def surrogateMax_def locb_def hicb_def

declare containsOnly.simps(2) [simp del]

lemma strings_HasPrefix_Cons: "strings_HasPrefix s (x # xs) \<Longrightarrow> x \<in> set s"
  by (cases s) auto

lemma strings_Contains_hd: "strings_Contains s (x # xs) \<Longrightarrow> x \<in> set s"
  by (induction s) (auto dest: strings_HasPrefix_Cons)

lemma strings_Contains_single: "strings_Contains s [x] \<longleftrightarrow> x \<in> set s"
  by (induction s) auto

lemma char_of_byte: "char_of (byte b) = b"
  by (simp add: byte_def)

lemma intstring_low: "r < 0x80 \<Longrightarrow> intstring r = [char_of r]"
  by (simp add: intstring_def rune_defs)

lemma intstring_high: "0x80 \<le> r \<Longrightarrow> \<exists>h t. intstring r = h # t \<and> 0x80 \<le> byte h"
  by (auto simp: intstring_def encode3_def rune_defs byte_def)

lemma decoderune_cases:
  "decoderune (b # bs) = (c, w) \<Longrightarrow>
     (byte b < 0x80 \<and> c = byte b \<and> w = 1) \<or> (0x80 \<le> byte b \<and> 0x80 \<le> c)"
  by (auto simp: Let_def rune_defs split: if_splits list.splits)

lemma decoderune_low: "byte b < 0x80 \<Longrightarrow> decoderune (b # bs) = (byte b, 1)"
  by simp

declare decoderune.simps [simp del]


lemma containsOnly_low:
  "byte b < 0x80 \<Longrightarrow> containsOnly (b # bs) chars = (b \<in> set chars \<and> containsOnly bs chars)"
  by (simp add: containsOnly.simps(2) decoderune_low intstring_low char_of_byte
        strings_Contains_single)

lemma containsOnly_high:
  assumes "0x80 \<le> byte b" and "\<forall>ch\<in>set chars. byte ch < 0x80"
  shows "\<not> containsOnly (b # bs) chars"
proof -
  obtain c w where d: "decoderune (b # bs) = (c, w)" by (cases "decoderune (b # bs)")
  with assms(1) have "0x80 \<le> c" using decoderune_cases [OF d] by auto
  then obtain h t where i: "intstring c = h # t" and h: "0x80 \<le> byte h"
    using intstring_high by blast
  have "\<not> strings_Contains chars (intstring c)"
  proof
    assume "strings_Contains chars (intstring c)"
    then have "h \<in> set chars" using i strings_Contains_hd by simp
    with assms(2) h show False by auto
  qed
  with d show ?thesis by (simp add: containsOnly.simps(2))
qed

lemma containsOnly_ascii:
  assumes "\<forall>ch\<in>set chars. byte ch < 0x80"
  shows "containsOnly s chars \<longleftrightarrow> (\<forall>b\<in>set s. b \<in> set chars)"
proof (induction s)
  case Nil
  show ?case by simp
next
  case (Cons b bs)
  show ?case
  proof (cases "byte b < 0x80")
    case True
    with Cons show ?thesis by (simp add: containsOnly_low)
  next
    case False
    then have "\<not> containsOnly (b # bs) chars" using containsOnly_high assms by simp
    moreover have "b \<notin> set chars" using False assms by auto
    ultimately show ?thesis by simp
  qed
qed

lemma alphabet_ascii: "\<forall>ch\<in>set ''.?0123456789''. byte ch < 0x80"
  by (simp add: byte_def)

lemma containsOnly_alphabet:
  "containsOnly s ''.?0123456789'' \<longleftrightarrow> (\<forall>b\<in>set s. b \<in> set ''.?0123456789'')"
  using containsOnly_ascii [OF alphabet_ascii] .

declare runes.simps(2) [simp del]

lemma containsOnly_step:
  "decoderune (b # bs) = (c, w) \<Longrightarrow>
     containsOnly (b # bs) chars
       = (strings_Contains chars (intstring c) \<and> containsOnly (drop w (b # bs)) chars)"
  by (simp add: containsOnly.simps(2))

lemma runes_step:
  "decoderune (b # bs) = (c, w) \<Longrightarrow> runes (b # bs) = c # runes (drop w (b # bs))"
  by (simp add: runes.simps(2))

lemma containsOnly_runes:
  "containsOnly s chars \<longleftrightarrow> (\<forall>r\<in>set (runes s). strings_Contains chars (intstring r))"
proof (induction s chars rule: containsOnly.induct)
  case (1 chars)
  show ?case by simp
next
  case (2 b bs chars)
  obtain c w where d: "decoderune (b # bs) = (c, w)" by (cases "decoderune (b # bs)")
  show ?case
  proof (cases "strings_Contains chars (intstring c)")
    case True
    with 2 [OF d [symmetric]] d show ?thesis
      by (simp add: containsOnly_step runes_step)
  next
    case False
    with d show ?thesis by (simp add: containsOnly_step runes_step)
  qed
qed

lemma decoderune_valid: "decoderune s = (c, w) \<Longrightarrow> validRune c"
  by (cases s)
     (auto simp: decoderune.simps validRune_def Let_def rune_defs byte_def
           split: if_splits list.splits)

lemma runes_valid: "r \<in> set (runes s) \<Longrightarrow> validRune r"
proof (induction s rule: runes.induct)
  case 1
  then show ?case by simp
next
  case (2 b bs)
  obtain c w where d: "decoderune (b # bs) = (c, w)" by (cases "decoderune (b # bs)")
  from "2.IH" [OF d [symmetric]] "2.prems" decoderune_valid [OF d] show ?case
    by (auto simp: runes_step [OF d])
qed


lemma intstring_shape:
  "\<exists>h t. intstring r = h # t \<and> \<not> contb h \<and> (\<forall>x\<in>set t. contb x) \<and> length t = tailLen h"
  by (auto simp: intstring_def encode3_def rune_defs byte_def contb_def tailLen_def)

lemma rebuild3: "(r::nat) = (r div 4096) * 4096 + (r div 64 mod 64) * 64 + r mod 64"
proof -
  have "r div 4096 = r div 64 div 64" by (simp add: div_mult2_eq [symmetric])
  moreover have "r div 64 = (r div 64 div 64) * 64 + r div 64 mod 64" by simp
  moreover have "r = (r div 64) * 64 + r mod 64" by simp
  ultimately show ?thesis by linarith
qed

lemma rebuild4:
  "(r::nat) = (r div 262144) * 262144 + (r div 4096 mod 64) * 4096 + (r div 64 mod 64) * 64
              + r mod 64"
proof -
  have a: "r div 4096 = r div 64 div 64" by (simp add: div_mult2_eq [symmetric])
  have b: "r div 262144 = r div 4096 div 64" by (simp add: div_mult2_eq [symmetric])
  have "r div 4096 = (r div 4096 div 64) * 64 + r div 4096 mod 64" by simp
  moreover have "r div 64 = (r div 64 div 64) * 64 + r div 64 mod 64" by simp
  moreover have "r = (r div 64) * 64 + r mod 64" by simp
  ultimately show ?thesis using a b by linarith
qed

lemma same2: "(r::nat) div 64 = x div 64 \<Longrightarrow> r mod 64 = x mod 64 \<Longrightarrow> r = x"
  by (metis div_mult_mod_eq)


lemma same3:
  "(r::nat) div 4096 = x div 4096 \<Longrightarrow> r div 64 mod 64 = x div 64 mod 64 \<Longrightarrow> r mod 64 = x mod 64
   \<Longrightarrow> r = x"
  using rebuild3 [of r] rebuild3 [of x] by simp

lemma same4:
  "(r::nat) div 262144 = x div 262144 \<Longrightarrow> r div 4096 mod 64 = x div 4096 mod 64
   \<Longrightarrow> r div 64 mod 64 = x div 64 mod 64 \<Longrightarrow> r mod 64 = x mod 64 \<Longrightarrow> r = x"
  using rebuild4 [of r] rebuild4 [of x] by simp


lemma intstring_inj:
  assumes "validRune r" and "validRune x" and "intstring r = intstring x"
  shows "r = x"
  using assms
  by (auto simp: intstring_def encode3_def rune_defs validRune_def split: if_splits
           dest: same2 same3 same4)

lemma HasPrefix_same_length:
  "strings_HasPrefix (a @ rest) p \<Longrightarrow> length p = length a \<Longrightarrow> p = a"
proof (induction a arbitrary: p)
  case Nil
  then show ?case by simp
next
  case (Cons x a)
  then show ?case by (cases p) auto
qed

lemma HasPrefix_self: "strings_HasPrefix (p @ rest) p"
  by (induction p) auto

lemma Contains_middle: "strings_Contains (pre @ p @ rest) p"
proof (induction pre)
  case Nil
  show ?case by (cases "p @ rest") (use HasPrefix_self [of p rest] in auto)
next
  case (Cons x pre)
  then show ?case by simp
qed

lemma Contains_skip:
  assumes "\<forall>x\<in>set t. contb x" and "\<not> contb h"
  shows "strings_Contains (t @ rest) (h # p) = strings_Contains rest (h # p)"
  using assms(1)
proof (induction t)
  case Nil
  show ?case by simp
next
  case (Cons x t)
  with assms(2) have "x \<noteq> h" by auto
  with Cons show ?case by simp
qed

lemma HasPrefix_intstring:
  assumes "strings_HasPrefix (intstring x @ rest) (intstring r)"
  shows "intstring r = intstring x"
proof -
  obtain h t where r: "intstring r = h # t" "length t = tailLen h"
    using intstring_shape [of r] by blast
  obtain h' t' where x: "intstring x = h' # t'" "length t' = tailLen h'"
    using intstring_shape [of x] by blast
  from assms r x have "h = h'" by simp
  with r x have "length (intstring r) = length (intstring x)" by simp
  with assms show ?thesis by (rule HasPrefix_same_length)
qed

lemma Contains_concat_intstring:
  assumes "strings_Contains (concat (map intstring rs)) (intstring r)"
  shows "\<exists>x\<in>set rs. intstring r = intstring x"
  using assms
proof (induction rs)
  case Nil
  then show ?case using intstring_shape [of r] by auto
next
  case (Cons x rs)
  obtain h t where r: "intstring r = h # t" "\<not> contb h"
    using intstring_shape [of r] by blast
  obtain h' t' where x: "intstring x = h' # t'" "\<forall>y\<in>set t'. contb y"
    using intstring_shape [of x] by blast
  let ?rest = "concat (map intstring rs)"
  from Cons.prems x
  have "strings_HasPrefix (intstring x @ ?rest) (intstring r)
        \<or> strings_Contains (t' @ ?rest) (intstring r)"
    by simp
  then show ?case
  proof
    assume "strings_HasPrefix (intstring x @ ?rest) (intstring r)"
    then have "intstring r = intstring x" by (rule HasPrefix_intstring)
    then show ?thesis by simp
  next
    assume "strings_Contains (t' @ ?rest) (intstring r)"
    then have "strings_Contains ?rest (intstring r)"
      using Contains_skip [OF x(2) r(2)] r(1) by simp
    with Cons.IH show ?thesis by auto
  qed
qed

lemma Contains_wellFormed:
  assumes "wellFormed chars" and "validRune r"
  shows "strings_Contains chars (intstring r) \<longleftrightarrow> r \<in> set (runes chars)"
proof
  assume "strings_Contains chars (intstring r)"
  with assms(1) have "strings_Contains (concat (map intstring (runes chars))) (intstring r)"
    by (simp add: wellFormed_def)
  then obtain x where "x \<in> set (runes chars)" and "intstring r = intstring x"
    using Contains_concat_intstring by blast
  with assms(2) show "r \<in> set (runes chars)"
    using intstring_inj runes_valid by blast
next
  assume "r \<in> set (runes chars)"
  then obtain pre post where "runes chars = pre @ r # post"
    by (auto dest: split_list)
  then have "concat (map intstring (runes chars))
             = concat (map intstring pre) @ intstring r @ concat (map intstring post)"
    by simp
  with assms(1) have "chars = concat (map intstring pre) @ intstring r @ concat (map intstring post)"
    by (simp add: wellFormed_def)
  then show "strings_Contains chars (intstring r)"
    using Contains_middle by metis
qed

lemma containsOnly_wellFormed:
  assumes "wellFormed chars"
  shows "containsOnly s chars \<longleftrightarrow> (\<forall>r\<in>set (runes s). r \<in> set (runes chars))"
  using Contains_wellFormed [OF assms] runes_valid
  by (auto simp: containsOnly_runes)

section \<open>Facts about traces and the two functions\<close>

lemma resolutionCalls_append:
  "resolutionCalls (xs @ ys) = resolutionCalls xs @ resolutionCalls ys"
  by (induction xs rule: resolutionCalls.induct) auto

lemma deletes_append: "deletes (xs @ ys) = deletes xs @ deletes ys"
  by (induction xs rule: deletes.induct) auto

lemma stores_append: "stores (xs @ ys) = stores xs @ stores ys"
  by (induction xs rule: stores.induct) auto

lemmas run_defs = ReadGasGuagePic_def analyze_def finish_def guessAmbiouousDigits_def Let_def

lemma resolutionCalls_run:
  "set (resolutionCalls (snd (ReadGasGuagePic w c jpg))) \<subseteq> {guessRequest c a | a. True}"
  by (auto simp: run_defs resolutionCalls_append split: sum.splits prod.splits if_splits)

lemma example_upload:
  "Files_Upload (exampleWorld rd ans) jpg uploadConfig = Inr exampleFile"
  by (simp add: exampleWorld_def)

lemma example_read:
  "GenerateData (exampleWorld rd ans) (readRequest exampleClient exampleFile)
     = Inr \<lparr>Read = rd, Date = ''2024-01-01'', ReadAt = 0, ItTakes = []\<rparr>"
  by (simp add: exampleWorld_def)

lemma runes_low: "byte b < 0x80 \<Longrightarrow> runes (b # bs) = byte b # runes bs"
  by (simp add: runes_step [OF decoderune_low])

lemma wellFormed_Nil: "wellFormed []"
  by (simp add: wellFormed_def)

lemma wellFormed_Cons_low: "byte b < 0x80 \<Longrightarrow> wellFormed (b # bs) = wellFormed bs"
  by (simp add: wellFormed_def runes_low intstring_low char_of_byte)

lemma wellFormed_alphabet: "wellFormed ''.?0123456789''"
  by (simp add: wellFormed_Cons_low wellFormed_Nil byte_def)

lemma runes_e_acute: "runes (CHR 0xC3 # CHR 0xA9 # bs) = 0xE9 # runes bs"
proof -
  have "decoderune (CHR 0xC3 # CHR 0xA9 # bs) = (0xE9, 2)"
    by (simp add: decoderune.simps byte_def contb_def rune_defs)
  from runes_step [OF this] show ?thesis by simp
qed

lemma intstring_e_acute: "intstring 0xE9 = [CHR 0xC3, CHR 0xA9]"
  by (simp add: intstring_def rune_defs char_of_eq_iff)

section \<open>The claims\<close>

subsection \<open>C1: no marker on success\<close>

text \<open>
  C1 says that the reading of every successful run contains no \<open>?\<close>. The function installs
  the answer of the resolution call without looking at it, so this holds only as far as the
  answer goes: the reading of a successful run contains a \<open>?\<close> exactly when a resolution
  call was made and the text it answered contains a \<open>?\<close>. When no resolution call was made,
  or the answer has no \<open>?\<close>, the reading has none.
\<close>

theorem C1_marker_only_from_answer:
  assumes "ReadGasGuagePic w c jpg = ((Inr r, c'), tr)"
  shows "strings_Contains (Read r) ''?'' \<longleftrightarrow>
           (\<exists>req\<in>set (resolutionCalls tr). \<exists>answer.
              Generate w req = Inr answer \<and> strings_Contains answer ''?'')"
  using assms
  by (auto simp: run_defs resolutionCalls_append split: sum.splits prod.splits if_splits)

text \<open>
  The run of the specification's scenario: the structured call reads \<open>12?.5\<close>, the
  resolution call answers \<open>128.5\<close>.
\<close>

theorem C1_marker_only_from_answer_witness:
  "ReadGasGuagePic (exampleWorld ''12?.5'' (Inr ''128.5'')) exampleClient ''jpeg''
     = ((Inr \<lparr>Read = ''128.5'', Date = ''2024-01-01'', ReadAt = 2000, ItTakes = ''1.5s''\<rparr>,
         exampleClient\<lparr>lastRead := ''128.5''\<rparr>),
        [Upload ''jpeg'' uploadConfig,
         GenerateDataCall (readRequest exampleClient exampleFile),
         LogPrintf ''Ambiguous digits found in the reading: 12?.5'',
         GenerateCall (guessRequest exampleClient ''12?.5''),
         StoreLastRead ''128.5'',
         Delete ''files/gauge''])
   \<and> \<not> strings_Contains ''128.5'' ''?''"
proof -
  have run:
    "ReadGasGuagePic (exampleWorld ''12?.5'' (Inr ''128.5'')) exampleClient ''jpeg''
       = ((Inr \<lparr>Read = ''128.5'', Date = ''2024-01-01'', ReadAt = 2000, ItTakes = ''1.5s''\<rparr>,
           exampleClient\<lparr>lastRead := ''128.5''\<rparr>),
          [Upload ''jpeg'' uploadConfig,
           GenerateDataCall (readRequest exampleClient exampleFile),
           LogPrintf ''Ambiguous digits found in the reading: 12?.5'',
           GenerateCall (guessRequest exampleClient ''12?.5''),
           StoreLastRead ''128.5'',
           Delete ''files/gauge''])"
    by (simp add: run_defs exampleWorld_def exampleFile_def containsOnly_alphabet)
  from C1_marker_only_from_answer [OF run] run show ?thesis
    by (simp add: exampleWorld_def)
qed

text \<open>
  C1 as it is written fails when the resolution call answers the ambiguous string back: the
  run succeeds and its reading is \<open>12?.5\<close>.
\<close>

theorem C1_counterexample:
  "fst (fst (ReadGasGuagePic (exampleWorld ''12?.5'' (Inr ''12?.5'')) exampleClient ''jpeg''))
     = Inr \<lparr>Read = ''12?.5'', Date = ''2024-01-01'', ReadAt = 2000, ItTakes = ''1.5s''\<rparr>
   \<and> strings_Contains ''12?.5'' ''?''"
  by (simp add: run_defs exampleWorld_def exampleFile_def containsOnly_alphabet)

subsection \<open>C2: the alphabet check comes before the call\<close>

text \<open>
  C2: when every byte of the string is one of \<open>.?0123456789\<close>, \<open>guessAmbiouousDigits\<close>
  issues the inference call (its one and only event); when some byte is not, it returns
  the error \<open>ambious value string, ... is not valid\<close> and its trace is empty, so no call was
  made. The alphabet is ASCII, so a character of more than one byte, or an ill-formed byte,
  is outside it: all bytes of the string are in the alphabet exactly when all runes that the
  loop reads from it are.
\<close>

theorem C2_alphabet_validation:
  "((\<forall>ch\<in>set s. ch \<in> set ''.?0123456789'')
      \<longleftrightarrow> (\<forall>r\<in>set (runes s). r \<in> set (runes ''.?0123456789'')))
   \<and> (if \<forall>ch\<in>set s. ch \<in> set ''.?0123456789''
      then snd (guessAmbiouousDigits w c s) = [GenerateCall (guessRequest c s)]
      else guessAmbiouousDigits w c s
             = (Inl (Errorf (''ambious value string, '' @ s @ '' is not valid'')), []))"
  using containsOnly_alphabet [of s] containsOnly_wellFormed [OF wellFormed_alphabet, of s]
  by (simp add: guessAmbiouousDigits_def split: sum.splits)

text \<open>The two scenarios of the specification: \<open>12a.5\<close> is rejected, \<open>12?.5\<close> is sent.\<close>

theorem C2_alphabet_validation_witness:
  "guessAmbiouousDigits (exampleWorld ''12a.5'' (Inr ''128.5'')) exampleClient ''12a.5''
     = (Inl (Errorf ''ambious value string, 12a.5 is not valid''), [])
   \<and> snd (guessAmbiouousDigits (exampleWorld ''12?.5'' (Inr ''128.5'')) exampleClient ''12?.5'')
     = [GenerateCall (guessRequest exampleClient ''12?.5'')]"
  using C2_alphabet_validation [of "''12a.5''" "exampleWorld ''12a.5'' (Inr ''128.5'')" exampleClient]
        C2_alphabet_validation [of "''12?.5''" "exampleWorld ''12?.5'' (Inr ''128.5'')" exampleClient]
  by simp

subsection \<open>C3: when the resolution call is made\<close>

text \<open>
  C3 says that a structured result whose reading contains \<open>?\<close> leads to exactly one
  resolution call. The alphabet check stands between the two: the call is made exactly when
  the reading contains \<open>?\<close> and all its bytes are in \<open>.?0123456789\<close>. Then there is one
  call, and its prompt is the format's text around the ambiguous reading and around the
  \<open>lastRead\<close> the client held before the run. In every other case (no \<open>?\<close>, or a \<open>?\<close>
  beside a byte outside the alphabet) there is no resolution call.
\<close>

theorem C3_resolution_calls:
  assumes "Files_Upload w jpg uploadConfig = Inr file"
    and "GenerateData w (readRequest c file) = Inr out"
  shows "resolutionCalls (snd (ReadGasGuagePic w c jpg)) =
           (if strings_Contains (Read out) ''?''
               \<and> (\<forall>ch\<in>set (Read out). ch \<in> set ''.?0123456789'')
            then [\<lparr>WithModelName = model c,
                   WithMessages =
                     [NewUserMessage
                        [NewTextPart
                           (promptHead @ Read out @ promptMiddle @ lastRead c @ promptTail)]],
                   WithConfig = samplingConfig\<rparr>]
            else [])"
  using assms
  by (auto simp: run_defs resolutionCalls_append containsOnly_alphabet guessRequest_def
                 fixAmbiguousPrompt_def
           split: sum.splits prod.splits if_splits)

text \<open>A reading with a marker, \<open>12?.5\<close>, and one without, \<open>100.2\<close>.\<close>

theorem C3_resolution_calls_witness:
  "resolutionCalls
     (snd (ReadGasGuagePic (exampleWorld ''12?.5'' (Inr ''128.5'')) exampleClient ''jpeg''))
     = [\<lparr>WithModelName = ''googleai/gemini-2.5-flash-lite'',
         WithMessages =
           [NewUserMessage
              [NewTextPart (promptHead @ ''12?.5'' @ promptMiddle @ ''123.4'' @ promptTail)]],
         WithConfig = samplingConfig\<rparr>]
   \<and> resolutionCalls
     (snd (ReadGasGuagePic (exampleWorld ''100.2'' (Inr ''128.5'')) exampleClient ''jpeg''))
     = []"
  using C3_resolution_calls [OF example_upload example_read, of "''12?.5''" "Inr ''128.5''"]
        C3_resolution_calls [OF example_upload example_read, of "''100.2''" "Inr ''128.5''"]
  by (simp add: exampleClient_def)

text \<open>
  C3 as it is written fails on the reading \<open>1?a\<close>: it contains \<open>?\<close>, and the run makes no
  resolution call.
\<close>

theorem C3_counterexample:
  "GenerateData (exampleWorld ''1?a'' (Inr ''128.5'')) (readRequest exampleClient exampleFile)
     = Inr \<lparr>Read = ''1?a'', Date = ''2024-01-01'', ReadAt = 0, ItTakes = []\<rparr>
   \<and> strings_Contains ''1?a'' ''?''
   \<and> resolutionCalls
       (snd (ReadGasGuagePic (exampleWorld ''1?a'' (Inr ''128.5'')) exampleClient ''jpeg''))
     = []"
  by (simp add: run_defs exampleWorld_def exampleFile_def containsOnly_alphabet)

subsection \<open>C4: when \<open>lastRead\<close> is written, and which value a run uses\<close>

text \<open>
  C4: the prompt of every resolution call of a run, successful or not, is the format's text
  around an ambiguous string and around the \<open>lastRead\<close> the client held before the run. A
  successful run stores into \<open>lastRead\<close> exactly once, the final reading, as its last step
  (only the deferred disposal follows), and changes nothing else of the client; the prompt of
  every resolution call of any later run on that client then carries this reading in the
  place of the previous value.
\<close>

theorem C4_lastRead_written_once_at_end:
  assumes "ReadGasGuagePic w c jpg = ((res, c'), tr)"
  shows "(\<forall>req\<in>set (resolutionCalls tr). \<exists>a.
            req = \<lparr>WithModelName = model c,
                   WithMessages =
                     [NewUserMessage
                        [NewTextPart
                           (promptHead @ a @ promptMiddle @ lastRead c @ promptTail)]],
                   WithConfig = samplingConfig\<rparr>)
       \<and> (\<forall>r. res = Inr r \<longrightarrow>
              c' = c\<lparr>lastRead := Read r\<rparr> \<and> stores tr = [Read r]
              \<and> (\<exists>pre name. tr = pre @ [StoreLastRead (Read r), Delete name])
              \<and> (\<forall>w2 jpg2. \<forall>req\<in>set (resolutionCalls (snd (ReadGasGuagePic w2 c' jpg2))). \<exists>a.
                    req = \<lparr>WithModelName = model c,
                           WithMessages =
                             [NewUserMessage
                                [NewTextPart
                                   (promptHead @ a @ promptMiddle @ Read r @ promptTail)]],
                           WithConfig = samplingConfig\<rparr>))"
proof -
  have calls: "\<forall>req\<in>set (resolutionCalls tr). \<exists>a. req = guessRequest c a"
    using resolutionCalls_run [of w c jpg] assms by auto
  have fin: "c' = c\<lparr>lastRead := Read r\<rparr> \<and> stores tr = [Read r]
             \<and> (\<exists>pre name. tr = pre @ [StoreLastRead (Read r), Delete name])"
    if "res = Inr r" for r
    using assms that
    by (auto simp: run_defs stores_append split: sum.splits prod.splits if_splits)
  have nxt: "\<forall>req\<in>set (resolutionCalls (snd (ReadGasGuagePic w2 c' jpg2))). \<exists>a.
               req = guessRequest (c\<lparr>lastRead := Read r\<rparr>) a"
    if "res = Inr r" for r w2 jpg2
    using resolutionCalls_run [of w2 c' jpg2] fin [OF that] by auto
  show ?thesis
    using calls fin nxt by (simp add: guessRequest_def fixAmbiguousPrompt_def)
qed

text \<open>
  Two runs in a row. The first resolves \<open>12?.5\<close> with the earlier reading \<open>123.4\<close> in its
  prompt and stores \<open>128.5\<close>; the second resolves \<open>13?.0\<close> with \<open>128.5\<close> in its prompt.
\<close>

theorem C4_lastRead_written_once_at_end_witness:
  "ReadGasGuagePic (exampleWorld ''12?.5'' (Inr ''128.5'')) exampleClient ''jpeg''
     = ((Inr \<lparr>Read = ''128.5'', Date = ''2024-01-01'', ReadAt = 2000, ItTakes = ''1.5s''\<rparr>,
         exampleClient\<lparr>lastRead := ''128.5''\<rparr>),
        [Upload ''jpeg'' uploadConfig,
         GenerateDataCall (readRequest exampleClient exampleFile),
         LogPrintf ''Ambiguous digits found in the reading: 12?.5'',
         GenerateCall
           \<lparr>WithModelName = ''googleai/gemini-2.5-flash-lite'',
            WithMessages =
              [NewUserMessage
                 [NewTextPart (promptHead @ ''12?.5'' @ promptMiddle @ ''123.4'' @ promptTail)]],
            WithConfig = samplingConfig\<rparr>,
         StoreLastRead ''128.5'',
         Delete ''files/gauge''])
   \<and> lastRead exampleClient = ''123.4''
   \<and> resolutionCalls
       (snd (ReadGasGuagePic (exampleWorld ''13?.0'' (Inr ''131.0''))
               (exampleClient\<lparr>lastRead := ''128.5''\<rparr>) ''jpeg''))
     = [\<lparr>WithModelName = ''googleai/gemini-2.5-flash-lite'',
         WithMessages =
           [NewUserMessage
              [NewTextPart (promptHead @ ''13?.0'' @ promptMiddle @ ''128.5'' @ promptTail)]],
         WithConfig = samplingConfig\<rparr>]"
proof -
  let ?req1 = "\<lparr>WithModelName = ''googleai/gemini-2.5-flash-lite'',
                WithMessages =
                  [NewUserMessage
                     [NewTextPart
                        (promptHead @ ''12?.5'' @ promptMiddle @ ''123.4'' @ promptTail)]],
                WithConfig = samplingConfig\<rparr>"
  have run:
    "ReadGasGuagePic (exampleWorld ''12?.5'' (Inr ''128.5'')) exampleClient ''jpeg''
       = ((Inr \<lparr>Read = ''128.5'', Date = ''2024-01-01'', ReadAt = 2000, ItTakes = ''1.5s''\<rparr>,
           exampleClient\<lparr>lastRead := ''128.5''\<rparr>),
          [Upload ''jpeg'' uploadConfig,
           GenerateDataCall (readRequest exampleClient exampleFile),
           LogPrintf ''Ambiguous digits found in the reading: 12?.5'',
           GenerateCall ?req1,
           StoreLastRead ''128.5'',
           Delete ''files/gauge''])"
    by (simp add: run_defs exampleWorld_def exampleFile_def containsOnly_alphabet
                  guessRequest_def fixAmbiguousPrompt_def exampleClient_def)
  have nxt:
    "resolutionCalls
       (snd (ReadGasGuagePic (exampleWorld ''13?.0'' (Inr ''131.0''))
               (exampleClient\<lparr>lastRead := ''128.5''\<rparr>) ''jpeg''))
     = [\<lparr>WithModelName = ''googleai/gemini-2.5-flash-lite'',
         WithMessages =
           [NewUserMessage
              [NewTextPart (promptHead @ ''13?.0'' @ promptMiddle @ ''128.5'' @ promptTail)]],
         WithConfig = samplingConfig\<rparr>]"
    by (simp add: run_defs exampleWorld_def exampleFile_def containsOnly_alphabet
                  guessRequest_def fixAmbiguousPrompt_def exampleClient_def)
  from C4_lastRead_written_once_at_end [OF run] run nxt show ?thesis
    by (simp add: exampleClient_def)
qed

subsection \<open>C5: a failed disambiguation fails the run\<close>

text \<open>
  C5: when the upload and the structured call succeed, the reading contains \<open>?\<close> and
  \<open>guessAmbiouousDigits\<close> returns an error, the run returns the error
  \<open>failed to guess ambiguous digits:\<close> followed by the cause, and no result; the client
  is unchanged.
\<close>

theorem C5_disambiguation_failure_fails_run:
  assumes "Files_Upload w jpg uploadConfig = Inr file"
    and "GenerateData w (readRequest c file) = Inr out"
    and "strings_Contains (Read out) ''?''"
    and "fst (guessAmbiouousDigits w c (Read out)) = Inl err"
  shows "fst (ReadGasGuagePic w c jpg)
           = (Inl (Errorf (''failed to guess ambiguous digits: '' @ Error err)), c)"
  using assms
  by (auto simp: ReadGasGuagePic_def analyze_def Let_def split: prod.splits sum.splits)

text \<open>The resolution call runs into a deadline.\<close>

theorem C5_disambiguation_failure_fails_run_witness:
  "fst (guessAmbiouousDigits (exampleWorld ''12?.5'' (Inl (Errorf ''deadline exceeded'')))
          exampleClient ''12?.5'')
     = Inl (Errorf ''failed to generate: deadline exceeded'')
   \<and> fst (ReadGasGuagePic (exampleWorld ''12?.5'' (Inl (Errorf ''deadline exceeded'')))
            exampleClient ''jpeg'')
     = (Inl (Errorf ''failed to guess ambiguous digits: failed to generate: deadline exceeded''),
        exampleClient)"
proof -
  let ?w = "exampleWorld ''12?.5'' (Inl (Errorf ''deadline exceeded''))"
  have q: "strings_Contains
             (Read \<lparr>Read = ''12?.5'', Date = ''2024-01-01'', ReadAt = 0, ItTakes = []\<rparr>) ''?''"
    by simp
  have g: "fst (guessAmbiouousDigits ?w exampleClient
                  (Read \<lparr>Read = ''12?.5'', Date = ''2024-01-01'', ReadAt = 0, ItTakes = []\<rparr>))
             = Inl (Errorf ''failed to generate: deadline exceeded'')"
    by (simp add: guessAmbiouousDigits_def containsOnly_alphabet exampleWorld_def)
  from C5_disambiguation_failure_fails_run [OF example_upload example_read q g] g
  show ?thesis by simp
qed

subsection \<open>C6: an error leaves \<open>lastRead\<close> as it was\<close>

text \<open>
  C6: when the run returns an error, the client after the run is the client before it and
  nothing was stored into \<open>lastRead\<close>. The error is one of three: the upload failed, the
  structured call failed, or the disambiguation failed.
\<close>

theorem C6_error_leaves_lastRead:
  assumes "ReadGasGuagePic w c jpg = ((Inl e, c'), tr)"
  shows "c' = c \<and> stores tr = []
         \<and> (\<exists>cause. e = Errorf (''failed to upload: '' @ cause)
                    \<or> e = Errorf (''failed to analyze: '' @ cause)
                    \<or> e = Errorf (''failed to guess ambiguous digits: '' @ cause))"
  using assms
  by (auto simp: run_defs stores_append split: prod.splits sum.splits if_splits)

text \<open>A failing run of each kind.\<close>

theorem C6_error_leaves_lastRead_witness:
  "ReadGasGuagePic uploadFailsWorld exampleClient ''jpeg''
     = ((Inl (Errorf ''failed to upload: connection refused''), exampleClient),
        [Upload ''jpeg'' uploadConfig])
   \<and> ReadGasGuagePic analyzeFailsWorld exampleClient ''jpeg''
     = ((Inl (Errorf ''failed to analyze: quota exceeded''), exampleClient),
        [Upload ''jpeg'' uploadConfig,
         GenerateDataCall (readRequest exampleClient exampleFile),
         Delete ''files/gauge''])
   \<and> ReadGasGuagePic (exampleWorld ''12a?5'' (Inr ''128.5'')) exampleClient ''jpeg''
     = ((Inl (Errorf (''failed to guess ambiguous digits: ''
                      @ ''ambious value string, 12a?5 is not valid'')), exampleClient),
        [Upload ''jpeg'' uploadConfig,
         GenerateDataCall (readRequest exampleClient exampleFile),
         LogPrintf ''Ambiguous digits found in the reading: 12a?5'',
         Delete ''files/gauge''])"
proof -
  have run1: "ReadGasGuagePic uploadFailsWorld exampleClient ''jpeg''
     = ((Inl (Errorf ''failed to upload: connection refused''), exampleClient),
        [Upload ''jpeg'' uploadConfig])"
    by (simp add: run_defs uploadFailsWorld_def exampleWorld_def)
  have run2: "ReadGasGuagePic analyzeFailsWorld exampleClient ''jpeg''
     = ((Inl (Errorf ''failed to analyze: quota exceeded''), exampleClient),
        [Upload ''jpeg'' uploadConfig,
         GenerateDataCall (readRequest exampleClient exampleFile),
         Delete ''files/gauge''])"
    by (simp add: run_defs analyzeFailsWorld_def exampleWorld_def exampleFile_def)
  have run3: "ReadGasGuagePic (exampleWorld ''12a?5'' (Inr ''128.5'')) exampleClient ''jpeg''
     = ((Inl (Errorf (''failed to guess ambiguous digits: ''
                      @ ''ambious value string, 12a?5 is not valid'')), exampleClient),
        [Upload ''jpeg'' uploadConfig,
         GenerateDataCall (readRequest exampleClient exampleFile),
         LogPrintf ''Ambiguous digits found in the reading: 12a?5'',
         Delete ''files/gauge''])"
    by (simp add: run_defs exampleWorld_def exampleFile_def containsOnly_alphabet)
  from C6_error_leaves_lastRead [OF run1] C6_error_leaves_lastRead [OF run2]
       C6_error_leaves_lastRead [OF run3] run1 run2 run3
  show ?thesis by simp
qed

subsection \<open>C7: the answer is installed as it is\<close>

text \<open>
  C7: when \<open>guessAmbiouousDigits\<close> made its call and the call answered a text, the function
  returns that text, whatever it is; and when that happens in a run, the result of the run
  is the structured result with this very text as its reading (and the two time stamps).
\<close>

theorem C7_answer_installed_verbatim:
  "(GenerateCall req \<in> set (snd (guessAmbiouousDigits w c a)) \<longrightarrow> Generate w req = Inr answer
      \<longrightarrow> fst (guessAmbiouousDigits w c a) = Inr answer)
   \<and> (Files_Upload w jpg uploadConfig = Inr file \<longrightarrow> GenerateData w (readRequest c file) = Inr out
      \<longrightarrow> strings_Contains (Read out) ''?''
      \<longrightarrow> fst (guessAmbiouousDigits w c (Read out)) = Inr answer
      \<longrightarrow> fst (fst (ReadGasGuagePic w c jpg))
            = Inr (out\<lparr>Read := answer, ItTakes := Duration_String w (Now w 1 - Now w 0),
                       ReadAt := Now w 2\<rparr>))"
  by (auto simp: run_defs split: prod.splits sum.splits if_splits)

text \<open>
  An answer with blanks around it, a marker left in, a unit and a line break, longer than
  the question: it becomes the reading, byte for byte.
\<close>

theorem C7_answer_installed_verbatim_witness:
  "GenerateCall (guessRequest exampleClient ''12?.5'')
     \<in> set (snd (guessAmbiouousDigits (exampleWorld ''12?.5'' (Inr '' 12?.50 m3\<newline>''))
                   exampleClient ''12?.5''))
   \<and> fst (guessAmbiouousDigits (exampleWorld ''12?.5'' (Inr '' 12?.50 m3\<newline>''))
            exampleClient ''12?.5'')
     = Inr '' 12?.50 m3\<newline>''
   \<and> fst (fst (ReadGasGuagePic (exampleWorld ''12?.5'' (Inr '' 12?.50 m3\<newline>''))
                 exampleClient ''jpeg''))
     = Inr \<lparr>Read = '' 12?.50 m3\<newline>'', Date = ''2024-01-01'', ReadAt = 2000,
            ItTakes = ''1.5s''\<rparr>"
proof -
  let ?w = "exampleWorld ''12?.5'' (Inr '' 12?.50 m3\<newline>'')"
  let ?out = "\<lparr>Read = ''12?.5'', Date = ''2024-01-01'', ReadAt = 0, ItTakes = []\<rparr>"
  have call: "GenerateCall (guessRequest exampleClient ''12?.5'')
                \<in> set (snd (guessAmbiouousDigits ?w exampleClient ''12?.5''))"
    by (simp add: guessAmbiouousDigits_def containsOnly_alphabet exampleWorld_def)
  have ans: "Generate ?w (guessRequest exampleClient ''12?.5'') = Inr '' 12?.50 m3\<newline>''"
    by (simp add: exampleWorld_def)
  have q: "strings_Contains (Read ?out) ''?''" by simp
  from C7_answer_installed_verbatim [of "guessRequest exampleClient ''12?.5''" ?w exampleClient
      "''12?.5''" "'' 12?.50 m3\<newline>''" "''jpeg''" exampleFile ?out] call ans
  have g: "fst (guessAmbiouousDigits ?w exampleClient ''12?.5'') = Inr '' 12?.50 m3\<newline>''"
    by blast
  then have g': "fst (guessAmbiouousDigits ?w exampleClient (Read ?out))
                   = Inr '' 12?.50 m3\<newline>''"
    by simp
  from C7_answer_installed_verbatim [of "guessRequest exampleClient ''12?.5''" ?w exampleClient
      "''12?.5''" "'' 12?.50 m3\<newline>''" "''jpeg''" exampleFile ?out]
       example_upload [of "''12?.5''" _ "''jpeg''"] example_read [of "''12?.5''"] q g'
  have "fst (fst (ReadGasGuagePic ?w exampleClient ''jpeg''))
          = Inr (?out\<lparr>Read := '' 12?.50 m3\<newline>'',
                       ItTakes := Duration_String ?w (Now ?w 1 - Now ?w 0),
                       ReadAt := Now ?w 2\<rparr>)"
    by blast
  with call g show ?thesis by (simp add: exampleWorld_def)
qed

subsection \<open>C8: the disposal runs once, whatever happens\<close>

text \<open>
  C8: when the upload has succeeded, the trace of the run has exactly one \<open>Files.Delete\<close>,
  on the name of the uploaded file, and it is the last event of the run, on the success path
  and on each failure path; and the run (result, client and trace) is the same whatever
  \<open>Files.Delete\<close> answers, an error included.
\<close>

theorem C8_disposal_once_and_silent:
  assumes "Files_Upload w jpg uploadConfig = Inr file"
  shows "deletes (snd (ReadGasGuagePic w c jpg)) = [Name file]
       \<and> last (snd (ReadGasGuagePic w c jpg)) = Delete (Name file)
       \<and> ReadGasGuagePic (w\<lparr>Files_Delete := d\<rparr>) c jpg = ReadGasGuagePic w c jpg"
  using assms
  by (auto simp: run_defs deletes_append split: prod.splits sum.splits if_splits)

text \<open>
  A successful run, a run whose structured call fails and a run whose disambiguation fails;
  and the successful run again with a \<open>Files.Delete\<close> that answers an error.
\<close>

theorem C8_disposal_once_and_silent_witness:
  "deletes (snd (ReadGasGuagePic (exampleWorld ''12?.5'' (Inr ''128.5'')) exampleClient ''jpeg''))
     = [''files/gauge'']
   \<and> deletes (snd (ReadGasGuagePic analyzeFailsWorld exampleClient ''jpeg'')) = [''files/gauge'']
   \<and> deletes (snd (ReadGasGuagePic (exampleWorld ''1?a'' (Inr ''128.5'')) exampleClient ''jpeg''))
     = [''files/gauge'']
   \<and> ReadGasGuagePic
       ((exampleWorld ''12?.5'' (Inr ''128.5''))
          \<lparr>Files_Delete := (\<lambda>name. Some (Errorf ''not found''))\<rparr>) exampleClient ''jpeg''
     = ReadGasGuagePic (exampleWorld ''12?.5'' (Inr ''128.5'')) exampleClient ''jpeg''"
proof -
  have up2: "Files_Upload analyzeFailsWorld ''jpeg'' uploadConfig = Inr exampleFile"
    by (simp add: analyzeFailsWorld_def exampleWorld_def)
  from C8_disposal_once_and_silent
         [OF example_upload [of "''12?.5''" "Inr ''128.5''" "''jpeg''"],
          where c = exampleClient and d = "\<lambda>name. Some (Errorf ''not found'')"]
       C8_disposal_once_and_silent [OF up2, where c = exampleClient]
       C8_disposal_once_and_silent
         [OF example_upload [of "''1?a''" "Inr ''128.5''" "''jpeg''"], where c = exampleClient]
  show ?thesis by (simp add: exampleFile_def)
qed

subsection \<open>C9: the date is the structured call's date\<close>

text \<open>
  C9: the \<open>Date\<close> of the result of a successful run is the \<open>Date\<close> that the structured call
  gave, whether the resolution step ran or not.
\<close>

theorem C9_date_unchanged:
  assumes "Files_Upload w jpg uploadConfig = Inr file"
    and "GenerateData w (readRequest c file) = Inr out"
    and "fst (fst (ReadGasGuagePic w c jpg)) = Inr r"
  shows "Date r = Date out"
  using assms
  by (auto simp: run_defs split: prod.splits sum.splits if_splits)

text \<open>A run in which the resolution step changes the reading and leaves the date.\<close>

theorem C9_date_unchanged_witness:
  "fst (fst (ReadGasGuagePic (exampleWorld ''12?.5'' (Inr ''128.5'')) exampleClient ''jpeg''))
     = Inr \<lparr>Read = ''128.5'', Date = ''2024-01-01'', ReadAt = 2000, ItTakes = ''1.5s''\<rparr>
   \<and> Date \<lparr>Read = ''128.5'', Date = ''2024-01-01'', ReadAt = 2000, ItTakes = ''1.5s''\<rparr>
     = Date \<lparr>Read = ''12?.5'', Date = ''2024-01-01'', ReadAt = 0, ItTakes = []\<rparr>"
proof -
  have run:
    "fst (fst (ReadGasGuagePic (exampleWorld ''12?.5'' (Inr ''128.5'')) exampleClient ''jpeg''))
       = Inr \<lparr>Read = ''128.5'', Date = ''2024-01-01'', ReadAt = 2000, ItTakes = ''1.5s''\<rparr>"
    by (simp add: run_defs exampleWorld_def exampleFile_def containsOnly_alphabet)
  from C9_date_unchanged [OF example_upload example_read run] run show ?thesis by simp
qed

subsection \<open>C10: what \<open>containsOnly\<close> decides\<close>

text \<open>
  C10 says that \<open>containsOnly s chars\<close> is true exactly when every character of \<open>s\<close> occurs in
  \<open>chars\<close>. What the loop tests for each rune of \<open>s\<close> is whether the rune's encoding is a
  substring of \<open>chars\<close>; this is the first part below, for all strings. When \<open>chars\<close> is
  well-formed UTF-8 (the alphabet literal of the only call is) this is the same as the rune
  being one of the runes of \<open>chars\<close>: the second part. The function is true on the empty
  string, and \<open>guessAmbiouousDigits\<close> on the empty string issues its call.
\<close>

theorem C10_containsOnly_characters:
  "(containsOnly s chars \<longleftrightarrow> (\<forall>r\<in>set (runes s). strings_Contains chars (intstring r)))
   \<and> (wellFormed chars \<longrightarrow>
        (containsOnly s chars \<longleftrightarrow> (\<forall>r\<in>set (runes s). r \<in> set (runes chars))))
   \<and> containsOnly [] chars
   \<and> snd (guessAmbiouousDigits w c []) = [GenerateCall (guessRequest c [])]"
  using containsOnly_runes [of s chars] containsOnly_wellFormed [of chars s]
  by (simp add: guessAmbiouousDigits_def split: sum.splits)

text \<open>
  With the four characters \<open>1\<close>, e acute (two bytes), \<open>.\<close> as \<open>chars\<close>: a string of an
  e acute and a \<open>1\<close> is accepted; an e grave is not; a lone continuation byte is not.
\<close>

theorem C10_containsOnly_characters_witness:
  "wellFormed [CHR ''1'', CHR 0xC3, CHR 0xA9, CHR ''.'']
   \<and> containsOnly [CHR 0xC3, CHR 0xA9, CHR ''1''] [CHR ''1'', CHR 0xC3, CHR 0xA9, CHR ''.'']
   \<and> \<not> containsOnly [CHR 0xC3, CHR 0xA8] [CHR ''1'', CHR 0xC3, CHR 0xA9, CHR ''.'']
   \<and> \<not> containsOnly [CHR 0xA9] [CHR ''1'', CHR 0xC3, CHR 0xA9, CHR ''.'']"
proof -
  let ?chars = "[CHR ''1'', CHR 0xC3, CHR 0xA9, CHR ''.'']"
  have rc: "runes ?chars = [0x31, 0xE9, 0x2E]"
    by (simp add: runes_low runes_e_acute byte_def)
  have wf: "wellFormed ?chars"
    by (simp add: wellFormed_def rc intstring_low intstring_e_acute char_of_eq_iff)
  have r1: "runes [CHR 0xC3, CHR 0xA9, CHR ''1''] = [0xE9, 0x31]"
    by (simp add: runes_low runes_e_acute byte_def)
  have "decoderune [CHR 0xC3, CHR 0xA8] = (0xE8, 2)"
    by (simp add: decoderune.simps byte_def contb_def rune_defs)
  from runes_step [OF this] have r2: "runes [CHR 0xC3, CHR 0xA8] = [0xE8]" by simp
  have "decoderune [CHR 0xA9] = (runeError, 1)"
    by (simp add: decoderune.simps byte_def)
  from runes_step [OF this] have r3: "runes [CHR 0xA9] = [0xFFFD]" by (simp add: runeError_def)
  have a: "containsOnly s ?chars \<longleftrightarrow> (\<forall>r\<in>set (runes s). r \<in> set (runes ?chars))" for s
    using C10_containsOnly_characters [of s ?chars] wf by blast
  from wf a [of "[CHR 0xC3, CHR 0xA9, CHR ''1'']"] a [of "[CHR 0xC3, CHR 0xA8]"] a [of "[CHR 0xA9]"]
  show ?thesis by (simp add: rc r1 r2 r3)
qed

text \<open>
  C10 as it is written fails on the string of the single byte \<open>0xFF\<close>, taken as \<open>s\<close> and as
  \<open>chars\<close>: the loop reads the byte as \<open>runeError\<close>, whose encoding is three other bytes, so
  the string does not contain only its own characters.
\<close>

theorem C10_counterexample:
  "runes [CHR 0xFF] = [0xFFFD] \<and> \<not> containsOnly [CHR 0xFF] [CHR 0xFF]"
proof -
  have d: "decoderune [CHR 0xFF] = (0xFFFD, 1)"
    by (simp add: decoderune.simps byte_def runeError_def)
  have i: "intstring 0xFFFD = [CHR 0xEF, CHR 0xBF, CHR 0xBD]"
    by (simp add: intstring_def encode3_def rune_defs char_of_eq_iff)
  from runes_step [OF d] containsOnly_step [OF d, of "[CHR 0xFF]"] i show ?thesis by simp
qed

end
